theory Spec2Isabelle
  imports Main "HOL-Library.Sublist"
begin

section \<open>Python values and strings\<close>

text \<open>
  The script reads three fields of every listed item with \<open>item.get\<close> and uses each value in
  two ways only: its truth value (\<open>if not item_id\<close>) and its \<open>str()\<close> rendering inside
  f-strings. Field values are the JSON scalars; numbers are integers (non-integer numbers,
  arrays and objects as field values are outside this model). A \<open>char\<close> is one byte, so
  \<open>string\<close> also serves as the type of byte strings.
\<close>

datatype pyval = PNone | PBool bool | PInt int | PStr string

type_synonym pydict = "(string \<times> pyval) list"

type_synonym bytes = string

datatype py_error = TypeError | AttributeError

text \<open>Python's truth value of a scalar: \<open>None\<close>, \<open>False\<close>, \<open>0\<close> and \<open>""\<close> are false.\<close>

fun truthy :: "pyval \<Rightarrow> bool" where
  "truthy PNone = False"
| "truthy (PBool b) = b"
| "truthy (PInt n) = (n \<noteq> 0)"
| "truthy (PStr s) = (s \<noteq> [])"

definition digit_char :: "nat \<Rightarrow> char" where
  "digit_char d = char_of (48 + d)"

function str_nat :: "nat \<Rightarrow> string" where
  "str_nat n = (if n < 10 then [digit_char n] else str_nat (n div 10) @ [digit_char (n mod 10)])"
  by pat_completeness auto
termination
  by (relation "measure id") auto

definition str_int :: "int \<Rightarrow> string" where
  "str_int i = (if i < 0 then CHR ''-'' # str_nat (nat (- i)) else str_nat (nat i))"

text \<open>\<open>str(v)\<close>, as an f-string placeholder \<open>{v}\<close> renders it.\<close>

fun py_str :: "pyval \<Rightarrow> string" where
  "py_str PNone = ''None''"
| "py_str (PBool b) = (if b then ''True'' else ''False'')"
| "py_str (PInt n) = str_int n"
| "py_str (PStr s) = s"

text \<open>\<open>d.get(k)\<close> and \<open>d.get(k, default)\<close> on a dictionary.\<close>

definition dict_get :: "pydict \<Rightarrow> string \<Rightarrow> pyval" where
  "dict_get d k = (case map_of d k of None \<Rightarrow> PNone | Some v \<Rightarrow> v)"

definition dict_get_default :: "pydict \<Rightarrow> string \<Rightarrow> pyval \<Rightarrow> pyval" where
  "dict_get_default d k dflt = (case map_of d k of None \<Rightarrow> dflt | Some v \<Rightarrow> v)"

text \<open>\<open>sub in s\<close> on strings.\<close>

fun py_contains :: "string \<Rightarrow> string \<Rightarrow> bool" where
  "py_contains sub [] = (sub = [])"
| "py_contains sub (c # cs) = (prefix sub (c # cs) \<or> py_contains sub cs)"

text \<open>
  \<open>split_once sep s\<close> cuts \<open>s\<close> at the first occurrence of \<open>sep\<close>; \<open>py_split s sep\<close> is
  \<open>s.split(sep)\<close>. Python raises \<open>ValueError\<close> on an empty separator; both call sites of the
  script pass a non-empty literal, and the model returns the unsplit string there.
\<close>

fun split_once :: "string \<Rightarrow> string \<Rightarrow> (string \<times> string) option" where
  "split_once sep [] = (if sep = [] then Some ([], []) else None)"
| "split_once sep (c # cs) =
     (if prefix sep (c # cs) then Some ([], drop (length sep) (c # cs))
      else (case split_once sep cs of None \<Rightarrow> None | Some (a, b) \<Rightarrow> Some (c # a, b)))"

function py_split :: "string \<Rightarrow> string \<Rightarrow> string list" where
  "py_split s sep =
     (if sep = [] then [s]
      else (case split_once sep s of None \<Rightarrow> [s] | Some (a, b) \<Rightarrow> a # py_split b sep))"
  by pat_completeness auto
termination
proof (relation "measure (\<lambda>(s, sep). length s)")
  show "wf (measure (\<lambda>(s, sep). length s))" by simp
next
  fix s sep :: string and x2 x y
  assume sep: "sep \<noteq> []" and cut: "split_once sep s = Some x2" "(x, y) = x2"
  have len: "length a + length sep + length b = length t"
    if "split_once sep t = Some (a, b)" for t a b
    using that
  proof (induction t arbitrary: a)
    case Nil
    then show ?case by (simp split: if_splits)
  next
    case (Cons c cs)
    show ?case
    proof (cases "prefix sep (c # cs)")
      case True
      then have "length sep \<le> length (c # cs)" by (rule prefix_length_le)
      with True Cons.prems show ?thesis by auto
    next
      case False
      with Cons.prems obtain a' where "split_once sep cs = Some (a', b)" "a = c # a'"
        by (auto split: option.splits)
      with Cons.IH show ?thesis by fastforce
    qed
  qed
  from cut have "length x + length sep + length y = length s"
    using len [of s x y] by simp
  with sep show "((y, sep), (s, sep)) \<in> measure (\<lambda>(s, sep). length s)"
    by (cases sep) auto
qed

declare py_split.simps [simp del]

text \<open>\<open>os.path.join(a, b)\<close> on POSIX: an absolute second component replaces the first.\<close>

definition path_join :: "string \<Rightarrow> string \<Rightarrow> string" where
  "path_join a b =
     (if prefix ''/'' b then b
      else if a = [] \<or> suffix ''/'' a then a @ b
      else a @ ''/'' @ b)"

section \<open>The outside world: network, disk, mail transport\<close>

text \<open>
  What \<open>response.json()\<close> can yield. List elements that are not objects have no \<open>get\<close>
  attribute, whatever they are; they are one constructor.
\<close>

datatype element = EObj pydict | ENonObj

datatype payload = JList "element list" | JDict pydict | JScalar pyval

type_synonym headers = "(string \<times> string) list"

text \<open>
  A response as \<open>requests.get\<close> returns it. \<open>json_body\<close> is the outcome of
  \<open>response.json()\<close>; \<open>None\<close> stands for a body that does not parse (the call raises).
\<close>

record response =
  status_code :: nat
  content :: bytes
  json_body :: "payload option"

datatype http_result = RequestException | Response response

text \<open>\<open>response.raise_for_status()\<close> raises exactly for the 4xx and 5xx status codes.\<close>

definition raise_for_status :: "response \<Rightarrow> bool" where
  "raise_for_status r = (400 \<le> status_code r \<and> status_code r < 600)"

datatype fentry = Regular bytes | Unreadable

datatype write_outcome = Written | OpenFailed | WriteFailed bytes

datatype smtp_stage = Connect | StartTls | Login | Sendmail

record part =
  content_id :: string
  subtype :: string
  payload_bytes :: bytes

record message =
  subject :: string
  sender :: string
  recipients_header :: string
  html_body :: string
  parts :: "part list"

datatype event =
    PathExists string
  | HttpGet string headers
  | OpenWrite string
  | OpenRead string
  | SmtpConnect string string
  | SmtpStartTls
  | SmtpLogin string string
  | SmtpSendmail string "string list" message

text \<open>
  The environment of one run: the process environment, the answer of the network to a GET
  (it may depend on everything that happened before), what happens when a file is opened for
  writing (\<open>WriteFailed b\<close>: the file was created and holds \<open>b\<close> when the write raised), the
  subtype that \<open>MIMEImage\<close> guesses from image data, and the stage at which the mail session
  fails.
\<close>

record env =
  environ :: "string \<rightharpoonup> string"
  http :: "event list \<Rightarrow> string \<Rightarrow> headers \<Rightarrow> http_result"
  disk :: "string \<Rightarrow> write_outcome"
  what :: "bytes \<Rightarrow> string option"
  smtp_fails :: "smtp_stage \<Rightarrow> bool"

text \<open>The mutable world: the files on disk and the trace of effects, oldest first.\<close>

record state =
  fs :: "string \<rightharpoonup> fentry"
  trace :: "event list"

definition log :: "event \<Rightarrow> state \<Rightarrow> state" where
  "log ev s = s\<lparr>trace := trace s @ [ev]\<rparr>"

definition requests_get :: "env \<Rightarrow> string \<Rightarrow> headers \<Rightarrow> state \<Rightarrow> http_result \<times> state" where
  "requests_get e url hdrs s = (http e (trace s) url hdrs, log (HttpGet url hdrs) s)"

definition is_request :: "event \<Rightarrow> bool" where
  "is_request ev = (case ev of HttpGet _ _ \<Rightarrow> True | _ \<Rightarrow> False)"

definition is_dispatch :: "event \<Rightarrow> bool" where
  "is_dispatch ev =
     (case ev of SmtpConnect _ _ \<Rightarrow> True | SmtpStartTls \<Rightarrow> True | SmtpLogin _ _ \<Rightarrow> True
      | SmtpSendmail _ _ _ \<Rightarrow> True | _ \<Rightarrow> False)"

definition is_cache_access :: "event \<Rightarrow> bool" where
  "is_cache_access ev =
     (case ev of PathExists _ \<Rightarrow> True | OpenWrite _ \<Rightarrow> True | OpenRead _ \<Rightarrow> True | _ \<Rightarrow> False)"

text \<open>The events that a step from \<open>s\<close> to \<open>s'\<close> added to the trace.\<close>

definition new_events :: "state \<Rightarrow> state \<Rightarrow> event list" where
  "new_events s s' = drop (length (trace s)) (trace s')"

section \<open>\<open>get_cached_image\<close>\<close>

text \<open>
  Lines 49 to 57: the download of a missing file. The result is \<open>False\<close> where the source
  returns \<open>None\<close> from the handler.
\<close>

definition download :: "env \<Rightarrow> string \<Rightarrow> string \<Rightarrow> headers \<Rightarrow> state \<Rightarrow> bool \<times> state" where
  "download e url cache_path hdrs s =
     (case requests_get e url hdrs s of
        (RequestException, s1) \<Rightarrow> (False, s1)
      | (Response r, s1) \<Rightarrow>
          if raise_for_status r then (False, s1)
          else (let s2 = log (OpenWrite cache_path) s1 in
                case disk e cache_path of
                  OpenFailed \<Rightarrow> (False, s2)
                | WriteFailed b \<Rightarrow> (False, s2\<lparr>fs := (fs s2)(cache_path \<mapsto> Regular b)\<rparr>)
                | Written \<Rightarrow> (True, s2\<lparr>fs := (fs s2)(cache_path \<mapsto> Regular (content r))\<rparr>)))"

text \<open>Lines 61 to 66: reading the file back.\<close>

definition read_cached :: "string \<Rightarrow> state \<Rightarrow> bytes option \<times> state" where
  "read_cached cache_path s =
     (let s1 = log (OpenRead cache_path) s in
      case fs s1 cache_path of
        Some (Regular b) \<Rightarrow> (Some b, s1)
      | _ \<Rightarrow> (None, s1))"

definition get_cached_image ::
  "env \<Rightarrow> string \<Rightarrow> string \<Rightarrow> headers \<Rightarrow> state \<Rightarrow> bytes option \<times> state" where
  "get_cached_image e url cache_path hdrs s =
     (let s0 = log (PathExists cache_path) s in
      if fs s0 cache_path = None then
        (case download e url cache_path hdrs s0 of
           (False, s1) \<Rightarrow> (None, s1)
         | (True, s1) \<Rightarrow> read_cached cache_path s1)
      else read_cached cache_path s0)"

section \<open>Configuration (lines 11 to 23)\<close>

text \<open>
  The module constants are read from the process environment when the module is loaded.
  \<open>SMTP_PORT\<close> is kept as the text the environment gives (the source converts it with
  \<open>int\<close> at load time, before the function under study runs).
\<close>

definition getenv_default :: "env \<Rightarrow> string \<Rightarrow> string \<Rightarrow> string" where
  "getenv_default e k dflt = (case environ e k of None \<Rightarrow> dflt | Some v \<Rightarrow> v)"

definition JELLYFIN_API_URL :: "env \<Rightarrow> string" where
  "JELLYFIN_API_URL e =
     getenv_default e ''JELLYFIN_API_URL'' ''http://localhost:8096/Users/{USER_ID}/Items/Latest''"

definition JELLYFIN_API_TOKEN :: "env \<Rightarrow> string" where
  "JELLYFIN_API_TOKEN e = getenv_default e ''JELLYFIN_API_TOKEN'' []"

definition SMTP_SERVER :: "env \<Rightarrow> string" where
  "SMTP_SERVER e = getenv_default e ''SMTP_SERVER'' ''smtp.gmail.com''"

definition SMTP_PORT :: "env \<Rightarrow> string" where
  "SMTP_PORT e = getenv_default e ''SMTP_PORT'' ''587''"

definition SENDER_EMAIL :: "env \<Rightarrow> string" where
  "SENDER_EMAIL e = getenv_default e ''SENDER_EMAIL'' []"

definition SENDER_PASSWORD :: "env \<Rightarrow> string" where
  "SENDER_PASSWORD e = getenv_default e ''SENDER_PASSWORD'' []"

definition RECIPIENT_EMAILS :: "env \<Rightarrow> string list" where
  "RECIPIENT_EMAILS e = py_split (getenv_default e ''RECIPIENT_EMAILS'' []) '',''"

definition JELLYFIN_WEB_URL :: "env \<Rightarrow> string" where
  "JELLYFIN_WEB_URL e = getenv_default e ''JELLYFIN_WEB_URL'' ''http://localhost:8096/web/index.html''"

definition EMAIL_SUBJECT :: "env \<Rightarrow> string" where
  "EMAIL_SUBJECT e = getenv_default e ''EMAIL_SUBJECT'' ''Now on Jellyfin!''"

definition POSTER_CACHE_DIR :: string where
  "POSTER_CACHE_DIR = ''cache/posters''"

definition LOGO_CACHE_DIR :: string where
  "LOGO_CACHE_DIR = ''cache/logos''"

definition auth_headers :: "env \<Rightarrow> headers" where
  "auth_headers e = [(''Authorization'', ''MediaBrowser Token='' @ JELLYFIN_API_TOKEN e)]"

section \<open>\<open>get_latest_items\<close>\<close>

text \<open>
  Every exception inside the \<open>try\<close> block (from the request, from \<open>raise_for_status\<close>, from
  \<open>response.json()\<close>) ends in the handler, which returns the empty list.
\<close>

definition get_latest_items :: "env \<Rightarrow> state \<Rightarrow> payload \<times> state" where
  "get_latest_items e s =
     (case requests_get e (JELLYFIN_API_URL e) (auth_headers e) s of
        (RequestException, s1) \<Rightarrow> (JList [], s1)
      | (Response r, s1) \<Rightarrow>
          if raise_for_status r then (JList [], s1)
          else (case json_body r of None \<Rightarrow> (JList [], s1) | Some p \<Rightarrow> (p, s1)))"

section \<open>The message composer (lines 86 to 187)\<close>

text \<open>The string literals of the source, character for character.\<close>

definition html_open :: "string \<Rightarrow> string" where
  \<open>html_open web_url =
     ''\<newline>'' @
     ''    <html>\<newline>'' @
     ''    <body style="font-family: Arial, sans-serif; background-color: #f4f4f4; margin: 0; padding: 20px;">\<newline>'' @
     ''        <div style="max-width: 600px; margin: 0 auto; background-color: white; padding: 20px; border-radius: 10px;">\<newline>'' @
     ''            <h1 style="color: #333; text-align: center;">New Content on Jellyfin!</h1>\<newline>'' @
     ''            <p style="text-align: center; margin-bottom: 30px;">\<newline>'' @
     ''                <a href="'' @
     web_url @
     ''" style="color: #007bff; text-decoration: none;">Open Jellyfin</a>\<newline>'' @
     ''            </p>\<newline>'' @
     ''    ''\<close>

definition item_open :: "string" where
  \<open>item_open =
     ''\<newline>'' @
     ''        <div style="margin-bottom: 30px; padding: 15px; border: 1px solid #ddd; border-radius: 8px;">\<newline>'' @
     ''            <div style="display: flex; gap: 15px; align-items: flex-start;">\<newline>'' @
     ''        ''\<close>

definition poster_html :: "string \<Rightarrow> string \<Rightarrow> string" where
  \<open>poster_html poster_cid title =
     ''\<newline>'' @
     ''                <div style="flex-shrink: 0;">\<newline>'' @
     ''                    <img src="cid:'' @
     poster_cid @
     ''" alt="Poster for '' @
     title @
     ''" style="max-width: 150px; border-radius: 8px;">\<newline>'' @
     ''                </div>\<newline>'' @
     ''            ''\<close>

definition info_html :: "string \<Rightarrow> string \<Rightarrow> string" where
  \<open>info_html title item_type =
     ''\<newline>'' @
     ''                <div style="flex-grow: 1;">\<newline>'' @
     ''                    <h3 style="margin: 0 0 10px 0; color: #333;">'' @
     title @
     ''</h3>\<newline>'' @
     ''                    <p style="margin: 0 0 10px 0; color: #666; font-size: 14px;">Type: '' @
     item_type @
     ''</p>\<newline>'' @
     ''        ''\<close>

definition logo_html :: "string \<Rightarrow> string \<Rightarrow> string" where
  \<open>logo_html logo_cid title =
     ''\<newline>'' @
     ''                    <img src="cid:'' @
     logo_cid @
     ''" alt="Logo for '' @
     title @
     ''" style="max-width: 200px; margin-top: 10px;">\<newline>'' @
     ''            ''\<close>

definition item_close :: "string" where
  \<open>item_close =
     ''\<newline>'' @
     ''                </div>\<newline>'' @
     ''            </div>\<newline>'' @
     ''        </div>\<newline>'' @
     ''        ''\<close>

definition html_close :: "string" where
  \<open>html_close =
     ''\<newline>'' @
     ''        </div>\<newline>'' @
     ''    </body>\<newline>'' @
     ''    </html>\<newline>'' @
     ''    ''\<close>

text \<open>Lines 151 to 178: what one retained item appends to \<open>html_content\<close>.\<close>

definition item_html :: "string \<Rightarrow> string \<Rightarrow> string option \<Rightarrow> string option \<Rightarrow> string" where
  "item_html title item_type poster_cid logo_cid =
     item_open
     @ (case poster_cid of None \<Rightarrow> [] | Some c \<Rightarrow> poster_html c title)
     @ info_html title item_type
     @ (case logo_cid of None \<Rightarrow> [] | Some c \<Rightarrow> logo_html c title)
     @ item_close"

text \<open>Line 101.\<close>

definition jellyfin_base_url :: "string \<Rightarrow> string" where
  "jellyfin_base_url api_url =
     (if py_contains ''/Users/'' api_url then hd (py_split api_url ''/Users/'')
      else ''http://localhost:8096'')"

text \<open>
  Lines 134 to 139 and 143 to 148: an image whose bytes are present and not empty becomes an
  inline part. \<open>MIMEImage\<close> raises \<open>TypeError\<close> when it cannot guess the image subtype
  from the data, and nothing in the loop catches it.
\<close>

definition attach_image ::
  "env \<Rightarrow> string \<Rightarrow> bytes option \<Rightarrow> part list \<Rightarrow> py_error + (string option \<times> part list)" where
  "attach_image e cid img ps =
     (case img of
        None \<Rightarrow> Inr (None, ps)
      | Some b \<Rightarrow>
          if b = [] then Inr (None, ps)
          else (case what e b of
                  None \<Rightarrow> Inl TypeError
                | Some t \<Rightarrow>
                    Inr (Some cid,
                         ps @ [\<lparr>content_id = ''<'' @ cid @ ''>'', subtype = t, payload_bytes = b\<rparr>])))"

record draft =
  html_content :: string
  attached :: "part list"
  world :: state

definition poster_url :: "string \<Rightarrow> string \<Rightarrow> string" where
  "poster_url base item_id = base @ ''/Items/'' @ item_id @ ''/Images/Primary?maxWidth=300''"

definition logo_url :: "string \<Rightarrow> string \<Rightarrow> string" where
  "logo_url base item_id = base @ ''/Items/'' @ item_id @ ''/Images/Logo?maxWidth=300''"

definition poster_path :: "string \<Rightarrow> string" where
  "poster_path item_id = path_join POSTER_CACHE_DIR (item_id @ ''.jpg'')"

definition logo_path :: "string \<Rightarrow> string" where
  "logo_path item_id = path_join LOGO_CACHE_DIR (item_id @ ''.png'')"

definition item_title :: "pydict \<Rightarrow> string" where
  "item_title item = py_str (dict_get_default item ''Name'' (PStr ''Unknown Title''))"

definition item_kind :: "pydict \<Rightarrow> string" where
  "item_kind item = py_str (dict_get_default item ''Type'' (PStr ''Unknown''))"

definition item_ident :: "pydict \<Rightarrow> string" where
  "item_ident item = py_str (dict_get item ''Id'')"

text \<open>Lines 122 to 178: the loop body for an item that has passed the identity test.\<close>

definition process_item ::
  "env \<Rightarrow> string \<Rightarrow> headers \<Rightarrow> pydict \<Rightarrow> draft \<Rightarrow> (py_error \<times> state) + draft" where
  "process_item e base hdrs item d =
     (let i = item_ident item in
      case get_cached_image e (poster_url base i) (poster_path i) hdrs (world d) of
        (poster_bytes, s1) \<Rightarrow>
          (case attach_image e (''poster_'' @ i) poster_bytes (attached d) of
             Inl err \<Rightarrow> Inl (err, s1)
           | Inr (poster_cid, ps1) \<Rightarrow>
               (case get_cached_image e (logo_url base i) (logo_path i) hdrs s1 of
                  (logo_bytes, s2) \<Rightarrow>
                    (case attach_image e (''logo_'' @ i) logo_bytes ps1 of
                       Inl err \<Rightarrow> Inl (err, s2)
                     | Inr (logo_cid, ps2) \<Rightarrow>
                         Inr \<lparr>html_content =
                                html_content d
                                @ item_html (item_title item) (item_kind item) poster_cid logo_cid,
                              attached = ps2, world = s2\<rparr>))))"

text \<open>Lines 115 to 120: \<open>item.get\<close> needs a dictionary; an item without identity is skipped.\<close>

definition has_identity :: "pydict \<Rightarrow> bool" where
  "has_identity item = truthy (dict_get item ''Id'')"

definition loop_body ::
  "env \<Rightarrow> string \<Rightarrow> headers \<Rightarrow> element \<Rightarrow> draft \<Rightarrow> (py_error \<times> state) + draft" where
  "loop_body e base hdrs el d =
     (case el of
        ENonObj \<Rightarrow> Inl (AttributeError, world d)
      | EObj item \<Rightarrow> if \<not> has_identity item then Inr d else process_item e base hdrs item d)"

fun items_loop ::
  "env \<Rightarrow> string \<Rightarrow> headers \<Rightarrow> element list \<Rightarrow> draft \<Rightarrow> (py_error \<times> state) + draft" where
  "items_loop e base hdrs [] d = Inr d"
| "items_loop e base hdrs (el # els) d =
     (case loop_body e base hdrs el d of
        Inl x \<Rightarrow> Inl x
      | Inr d' \<Rightarrow> items_loop e base hdrs els d')"

text \<open>
  \<open>items[:10]\<close> and the iteration over it: a list gives its first ten elements, a string its
  first ten characters (each a string, not a dictionary); a dictionary or a number cannot
  be sliced.
\<close>

definition first10 :: "payload \<Rightarrow> py_error + element list" where
  "first10 items =
     (case items of
        JList xs \<Rightarrow> Inr (take 10 xs)
      | JDict _ \<Rightarrow> Inl TypeError
      | JScalar (PStr t) \<Rightarrow> Inr (map (\<lambda>_. ENonObj) (take 10 t))
      | JScalar _ \<Rightarrow> Inl TypeError)"

fun py_join :: "string \<Rightarrow> string list \<Rightarrow> string" where
  "py_join sep [] = []"
| "py_join sep [x] = x"
| "py_join sep (x # y # ys) = x @ sep @ py_join sep (y # ys)"

definition compose :: "env \<Rightarrow> payload \<Rightarrow> state \<Rightarrow> (py_error \<times> state) + (message \<times> state)" where
  "compose e items s =
     (case first10 items of
        Inl err \<Rightarrow> Inl (err, s)
      | Inr els \<Rightarrow>
          (case items_loop e (jellyfin_base_url (JELLYFIN_API_URL e)) (auth_headers e) els
                  \<lparr>html_content = html_open (JELLYFIN_WEB_URL e), attached = [], world = s\<rparr> of
             Inl x \<Rightarrow> Inl x
           | Inr d \<Rightarrow>
               Inr (\<lparr>subject = EMAIL_SUBJECT e, sender = SENDER_EMAIL e,
                     recipients_header = py_join '', '' (RECIPIENT_EMAILS e),
                     html_body = html_content d @ html_close, parts = attached d\<rparr>,
                    world d)))"

section \<open>The dispatcher (lines 190 to 197)\<close>

datatype outcome = ConfigMissing string | NoItems | Crashed py_error | SendFailed | Sent

definition dispatch :: "env \<Rightarrow> message \<Rightarrow> state \<Rightarrow> outcome \<times> state" where
  "dispatch e msg s =
     (let s1 = log (SmtpConnect (SMTP_SERVER e) (SMTP_PORT e)) s in
      if smtp_fails e Connect then (SendFailed, s1)
      else let s2 = log SmtpStartTls s1 in
      if smtp_fails e StartTls then (SendFailed, s2)
      else let s3 = log (SmtpLogin (SENDER_EMAIL e) (SENDER_PASSWORD e)) s2 in
      if smtp_fails e Login then (SendFailed, s3)
      else let s4 = log (SmtpSendmail (SENDER_EMAIL e) (RECIPIENT_EMAILS e) msg) s3 in
      if smtp_fails e Sendmail then (SendFailed, s4) else (Sent, s4))"

section \<open>\<open>send_jellyfin_email\<close>\<close>

definition required_vars :: "string list" where
  "required_vars =
     [''JELLYFIN_API_URL'', ''JELLYFIN_API_TOKEN'', ''SENDER_EMAIL'', ''SENDER_PASSWORD'',
      ''RECIPIENT_EMAILS'']"

text \<open>\<open>not os.getenv(var)\<close>: the variable is unset or set to the empty string.\<close>

definition missing :: "env \<Rightarrow> string \<Rightarrow> bool" where
  "missing e var = (case environ e var of None \<Rightarrow> True | Some v \<Rightarrow> v = [])"

text \<open>\<open>not items\<close> on what the fetcher returned.\<close>

definition truthy_payload :: "payload \<Rightarrow> bool" where
  "truthy_payload items =
     (case items of JList xs \<Rightarrow> xs \<noteq> [] | JDict d \<Rightarrow> d \<noteq> [] | JScalar v \<Rightarrow> truthy v)"

definition send_jellyfin_email :: "env \<Rightarrow> state \<Rightarrow> outcome \<times> state" where
  "send_jellyfin_email e s =
     (case find (missing e) required_vars of
        Some var \<Rightarrow> (ConfigMissing var, s)
      | None \<Rightarrow>
          (case get_latest_items e s of
             (items, s1) \<Rightarrow>
               if \<not> truthy_payload items then (NoItems, s1)
               else (case compose e items s1 of
                       Inl (err, s2) \<Rightarrow> (Crashed err, s2)
                     | Inr (msg, s2) \<Rightarrow> dispatch e msg s2)))"

section \<open>Notions used in the statements\<close>

text \<open>
  The items of a list that the loop does not skip, in list order: the dictionaries whose
  \<open>Id\<close> passes the test of line 119.
\<close>

fun retained :: "element list \<Rightarrow> pydict list" where
  "retained [] = []"
| "retained (EObj item # els) = (if has_identity item then item # retained els else retained els)"
| "retained (ENonObj # els) = retained els"

text \<open>\<open>if poster_bytes:\<close> on the result of \<open>get_cached_image\<close>: present and not empty.\<close>

definition obtained :: "bytes option \<Rightarrow> bool" where
  "obtained img = (case img of None \<Rightarrow> False | Some b \<Rightarrow> b \<noteq> [])"

text \<open>
  The block of one item, given which of its two images were attached, and the
  \<open>Content-ID\<close> headers of the parts attached for it.
\<close>

definition rendered_block :: "pydict \<Rightarrow> bool \<times> bool \<Rightarrow> string" where
  "rendered_block item fl =
     item_html (item_title item) (item_kind item)
       (if fst fl then Some (''poster_'' @ item_ident item) else None)
       (if snd fl then Some (''logo_'' @ item_ident item) else None)"

definition block_cids :: "pydict \<Rightarrow> bool \<times> bool \<Rightarrow> string list" where
  "block_cids item fl =
     (if fst fl then [''<poster_'' @ item_ident item @ ''>''] else [])
     @ (if snd fl then [''<logo_'' @ item_ident item @ ''>''] else [])"

section \<open>Concrete runs\<close>

definition demo_environ :: "string \<rightharpoonup> string" where
  "demo_environ =
     map_of [(''JELLYFIN_API_URL'', ''http://jf.lan:8096/Users/u1/Items/Latest''),
             (''JELLYFIN_API_TOKEN'', ''t0k''),
             (''SENDER_EMAIL'', ''me@example.org''),
             (''SENDER_PASSWORD'', ''pw''),
             (''RECIPIENT_EMAILS'', ''a@example.org,b@example.org'')]"

definition demo_item :: "string \<Rightarrow> string \<Rightarrow> element" where
  "demo_item i t = EObj [(''Id'', PStr i), (''Name'', PStr t), (''Type'', PStr ''Movie'')]"

definition demo_items :: "element list" where
  "demo_items =
     [demo_item ''a1'' ''Alien'', demo_item ''a2'' ''Brazil'', EObj [(''Name'', PStr ''Nameless'')],
      demo_item ''a4'' ''Dune'', demo_item ''a5'' ''Eraserhead'', demo_item ''a6'' ''Fargo'',
      demo_item ''a7'' ''Gattaca'', demo_item ''a8'' ''Heat'', demo_item ''a9'' ''Ikiru'',
      demo_item ''a10'' ''Jaws'', demo_item ''a11'' ''Kes'', demo_item ''a12'' ''Lola'']"

definition image_response :: "nat \<Rightarrow> response" where
  "image_response code = \<lparr>status_code = code, content = ''GIF89a..'', json_body = None\<rparr>"

definition listing_response :: "nat \<Rightarrow> response" where
  "listing_response code = \<lparr>status_code = code, content = [], json_body = Some (JList demo_items)\<rparr>"

text \<open>A server that answers every request with the given status code.\<close>

definition demo_http :: "nat \<Rightarrow> event list \<Rightarrow> string \<Rightarrow> headers \<Rightarrow> http_result" where
  "demo_http code tr url hdrs =
     (if url = ''http://jf.lan:8096/Users/u1/Items/Latest'' then Response (listing_response code)
      else Response (image_response code))"

definition no_http :: "event list \<Rightarrow> string \<Rightarrow> headers \<Rightarrow> http_result" where
  "no_http tr url hdrs = RequestException"

definition demo_env :: "nat \<Rightarrow> env" where
  "demo_env code =
     \<lparr>environ = demo_environ, http = demo_http code, disk = (\<lambda>_. Written),
      what = (\<lambda>_. Some ''gif''), smtp_fails = (\<lambda>_. False)\<rparr>"

definition offline_env :: env where
  "offline_env = (demo_env 200)\<lparr>http := no_http\<rparr>"

definition unconfigured_env :: env where
  "unconfigured_env = (demo_env 200)\<lparr>environ := demo_environ(''RECIPIENT_EMAILS'' := None)\<rparr>"

definition empty_state :: state where
  "empty_state = \<lparr>fs = Map.empty, trace = []\<rparr>"

definition empty_draft :: draft where
  "empty_draft = \<lparr>html_content = [], attached = [], world = empty_state\<rparr>"

definition tagged_item :: pydict where
  "tagged_item = [(''Id'', PStr ''a1''), (''Name'', PStr ''<img src=x>''), (''Type'', PStr ''Movie'')]"

definition plain_item :: pydict where
  "plain_item = [(''Id'', PStr ''a1''), (''Name'', PStr ''Alien''), (''Type'', PStr ''Movie'')]"

text \<open>
  A run behind a reverse proxy: the listing holds one item, and every image request is
  answered with status 200 and a sign-in page. \<open>MIMEImage\<close> guesses no subtype from such a
  body (none of its tests matches text that starts with \<open><html>\<close>).
\<close>

definition page_response :: response where
  "page_response = \<lparr>status_code = 200, content = ''<html>Sign in</html>'', json_body = None\<rparr>"

definition single_listing :: response where
  "single_listing = \<lparr>status_code = 200, content = [], json_body = Some (JList [EObj plain_item])\<rparr>"

definition proxy_http :: "event list \<Rightarrow> string \<Rightarrow> headers \<Rightarrow> http_result" where
  "proxy_http tr url hdrs =
     (if url = ''http://jf.lan:8096/Users/u1/Items/Latest'' then Response single_listing
      else Response page_response)"

definition gif_only :: "bytes \<Rightarrow> string option" where
  "gif_only b = (if take 6 b = ''GIF87a'' \<or> take 6 b = ''GIF89a'' then Some ''gif'' else None)"

definition proxy_env :: env where
  "proxy_env = (demo_env 200)\<lparr>http := proxy_http, what := gif_only\<rparr>"

section \<open>The image cache\<close>

lemma log_simps: "trace (log ev s) = trace s @ [ev]" "fs (log ev s) = fs s"
  by (simp_all add: log_def)

lemma get_cached_image_hit:
  "fs s p = Some (Regular b) \<Longrightarrow>
   get_cached_image e url p hdrs s = (Some b, s\<lparr>trace := trace s @ [PathExists p, OpenRead p]\<rparr>)"
  by (simp add: get_cached_image_def read_cached_def log_def Let_def)

lemma get_cached_image_fetched:
  assumes "fs s p = None"
    and "http e (trace s @ [PathExists p]) url hdrs = Response r"
    and "\<not> raise_for_status r"
    and "disk e p = Written"
  shows "get_cached_image e url p hdrs s =
    (Some (content r),
     \<lparr>fs = (fs s)(p \<mapsto> Regular (content r)),
      trace = trace s @ [PathExists p, HttpGet url hdrs, OpenWrite p, OpenRead p]\<rparr>)"
  using assms
  by (simp add: get_cached_image_def download_def requests_get_def read_cached_def log_def Let_def)

lemma get_cached_image_failed:
  assumes "fs s p = None"
    and "http e (trace s @ [PathExists p]) url hdrs = RequestException
         \<or> (\<exists>r. http e (trace s @ [PathExists p]) url hdrs = Response r \<and> raise_for_status r)"
  shows "get_cached_image e url p hdrs s =
    (None, s\<lparr>trace := trace s @ [PathExists p, HttpGet url hdrs]\<rparr>)"
  using assms
  by (auto simp add: get_cached_image_def download_def requests_get_def log_def Let_def)

lemma get_cached_image_miss_requests:
  assumes "fs s p = None"
  shows "HttpGet url hdrs \<in> set (new_events s (snd (get_cached_image e url p hdrs s)))"
  using assms
  by (auto simp add: get_cached_image_def download_def requests_get_def log_def Let_def
      new_events_def read_cached_def
      split: http_result.splits write_outcome.splits option.splits fentry.splits)

lemma demo_image_request:
  "http (demo_env code) tr ''http://jf.lan:8096/Items/a1/Images/Primary?maxWidth=300'' hdrs
     = Response (image_response code)"
  by (simp add: demo_env_def demo_http_def)

text \<open>
  C10. Whenever \<open>get_cached_image\<close> returns bytes, the file at the cache path exists afterwards
  and holds exactly these bytes: on the hit path and after a download alike, the value
  returned is the one read back from the file.
\<close>

theorem cached_bytes_on_disk:
  "get_cached_image e url p hdrs s = (Some b, s') \<Longrightarrow> fs s' p = Some (Regular b)"
  by (auto simp: get_cached_image_def Let_def read_cached_def download_def requests_get_def log_def
      split: if_splits prod.splits option.splits fentry.splits http_result.splits
        write_outcome.splits bool.splits)

theorem cached_bytes_on_disk_witness:
  "get_cached_image (demo_env 200) ''http://jf.lan:8096/Items/a1/Images/Primary?maxWidth=300''
      ''cache/posters/a1.jpg'' [] empty_state
     = (Some (content (image_response 200)),
        \<lparr>fs = (fs empty_state)(''cache/posters/a1.jpg''
                 \<mapsto> Regular (content (image_response 200))),
         trace = trace empty_state
                 @ [PathExists ''cache/posters/a1.jpg'',
                    HttpGet ''http://jf.lan:8096/Items/a1/Images/Primary?maxWidth=300'' [],
                    OpenWrite ''cache/posters/a1.jpg'', OpenRead ''cache/posters/a1.jpg'']\<rparr>)
   \<and> fs \<lparr>fs = (fs empty_state)(''cache/posters/a1.jpg''
                  \<mapsto> Regular (content (image_response 200))),
          trace = trace empty_state
                  @ [PathExists ''cache/posters/a1.jpg'',
                     HttpGet ''http://jf.lan:8096/Items/a1/Images/Primary?maxWidth=300'' [],
                     OpenWrite ''cache/posters/a1.jpg'', OpenRead ''cache/posters/a1.jpg'']\<rparr>
        ''cache/posters/a1.jpg'' = Some (Regular (content (image_response 200)))"
proof -
  have h1: "fs empty_state ''cache/posters/a1.jpg'' = None"
    by (simp add: empty_state_def)
  have h2: "http (demo_env 200) (trace empty_state @ [PathExists ''cache/posters/a1.jpg''])
      ''http://jf.lan:8096/Items/a1/Images/Primary?maxWidth=300'' []
     = Response (image_response 200)"
    by (rule demo_image_request)
  have h3: "\<not> raise_for_status (image_response 200)"
    by (simp add: raise_for_status_def image_response_def)
  have h4: "disk (demo_env 200) ''cache/posters/a1.jpg'' = Written"
    by (simp add: demo_env_def)
  note run = get_cached_image_fetched [OF h1 h2 h3 h4]
  from cached_bytes_on_disk [OF run] run show ?thesis by blast
qed

text \<open>
  C2. When no file exists at the cache path, the request succeeds and the file can be
  written, \<open>get_cached_image\<close> returns the response body, the file system changes at the cache
  path only (where the body is now stored), and one request was made. A second call with
  the same cache path, whatever the URL, headers and environment, makes no request, leaves
  the file system as it is and returns the same bytes.
\<close>

theorem cache_hit_law:
  assumes "fs s p = None"
    and "http e (trace s @ [PathExists p]) url hdrs = Response r"
    and "\<not> raise_for_status r"
    and "disk e p = Written"
  shows "\<exists>s1. get_cached_image e url p hdrs s = (Some (content r), s1)
      \<and> fs s1 = (fs s)(p \<mapsto> Regular (content r))
      \<and> new_events s s1 = [PathExists p, HttpGet url hdrs, OpenWrite p, OpenRead p]
      \<and> (\<forall>e' url' hdrs'. \<exists>s2.
            get_cached_image e' url' p hdrs' s1 = (Some (content r), s2)
            \<and> fs s2 = fs s1
            \<and> filter is_request (new_events s1 s2) = [])"
proof -
  let ?s1 = "\<lparr>fs = (fs s)(p \<mapsto> Regular (content r)),
      trace = trace s @ [PathExists p, HttpGet url hdrs, OpenWrite p, OpenRead p]\<rparr>"
  have first: "get_cached_image e url p hdrs s = (Some (content r), ?s1)"
    using assms by (rule get_cached_image_fetched)
  have "fs ?s1 p = Some (Regular (content r))" by simp
  then have second: "get_cached_image e' url' p hdrs' ?s1 =
      (Some (content r), ?s1\<lparr>trace := trace ?s1 @ [PathExists p, OpenRead p]\<rparr>)"
    for e' url' hdrs'
    by (rule get_cached_image_hit)
  have "filter is_request
      (new_events ?s1 (?s1\<lparr>trace := trace ?s1 @ [PathExists p, OpenRead p]\<rparr>)) = []"
    by (simp add: new_events_def is_request_def)
  with first second show ?thesis
    by (intro exI [of _ ?s1]) (simp add: new_events_def)
qed

theorem cache_hit_law_witness:
  "fs empty_state ''cache/posters/a1.jpg'' = None
   \<and> \<not> raise_for_status (image_response 200)
   \<and> (\<exists>s1. get_cached_image (demo_env 200)
               ''http://jf.lan:8096/Items/a1/Images/Primary?maxWidth=300''
               ''cache/posters/a1.jpg'' [] empty_state
             = (Some (content (image_response 200)), s1)
        \<and> fs s1 = (fs empty_state)(''cache/posters/a1.jpg''
                      \<mapsto> Regular (content (image_response 200)))
        \<and> new_events empty_state s1 =
            [PathExists ''cache/posters/a1.jpg'',
             HttpGet ''http://jf.lan:8096/Items/a1/Images/Primary?maxWidth=300'' [],
             OpenWrite ''cache/posters/a1.jpg'', OpenRead ''cache/posters/a1.jpg'']
        \<and> (\<forall>e' url' hdrs'. \<exists>s2.
              get_cached_image e' url' ''cache/posters/a1.jpg'' hdrs' s1
                = (Some (content (image_response 200)), s2)
              \<and> fs s2 = fs s1
              \<and> filter is_request (new_events s1 s2) = []))"
proof -
  have h1: "fs empty_state ''cache/posters/a1.jpg'' = None"
    by (simp add: empty_state_def)
  have h2: "http (demo_env 200) (trace empty_state @ [PathExists ''cache/posters/a1.jpg''])
      ''http://jf.lan:8096/Items/a1/Images/Primary?maxWidth=300'' []
     = Response (image_response 200)"
    by (rule demo_image_request)
  have h3: "\<not> raise_for_status (image_response 200)"
    by (simp add: raise_for_status_def image_response_def)
  have h4: "disk (demo_env 200) ''cache/posters/a1.jpg'' = Written"
    by (simp add: demo_env_def)
  from cache_hit_law [OF h1 h2 h3 h4] h1 h3 show ?thesis by simp
qed

section \<open>The item fetcher and the run\<close>

lemma get_latest_items_state:
  "snd (get_latest_items e s) = log (HttpGet (JELLYFIN_API_URL e) (auth_headers e)) s"
  by (simp add: get_latest_items_def requests_get_def split: http_result.splits option.splits)

lemma demo_listing_request:
  "http (demo_env code) tr (JELLYFIN_API_URL (demo_env code)) hdrs = Response (listing_response code)"
  by (simp add: demo_env_def demo_http_def JELLYFIN_API_URL_def getenv_default_def demo_environ_def)

lemma offline_request: "http offline_env tr url hdrs = RequestException"
  by (simp add: offline_env_def no_http_def)

text \<open>
  C5. When no file exists at the cache path and the request fails in a way the code detects
  (the request raises, as on a network error or a timeout, or the status is one that
  \<open>raise_for_status\<close> rejects, 400 to 599), \<open>get_cached_image\<close> returns \<open>None\<close>, the file
  system is unchanged (no cache file is created) and the only effects are the existence test
  and the request. A later call with the same cache path then issues its request again,
  whatever the environment.
\<close>

theorem failed_fetch_leaves_no_file:
  assumes "fs s p = None"
    and "http e (trace s @ [PathExists p]) url hdrs = RequestException
         \<or> (\<exists>r. http e (trace s @ [PathExists p]) url hdrs = Response r
                \<and> 400 \<le> status_code r \<and> status_code r < 600)"
  shows "\<exists>s1. get_cached_image e url p hdrs s = (None, s1)
      \<and> fs s1 = fs s
      \<and> new_events s s1 = [PathExists p, HttpGet url hdrs]
      \<and> (\<forall>e' url' hdrs'.
            HttpGet url' hdrs' \<in> set (new_events s1 (snd (get_cached_image e' url' p hdrs' s1))))"
proof -
  let ?s1 = "s\<lparr>trace := trace s @ [PathExists p, HttpGet url hdrs]\<rparr>"
  from assms(2) have "http e (trace s @ [PathExists p]) url hdrs = RequestException
      \<or> (\<exists>r. http e (trace s @ [PathExists p]) url hdrs = Response r \<and> raise_for_status r)"
    by (auto simp: raise_for_status_def)
  with assms(1) have run: "get_cached_image e url p hdrs s = (None, ?s1)"
    by (rule get_cached_image_failed)
  from assms(1) have "fs ?s1 p = None" by simp
  then have "HttpGet url' hdrs' \<in> set (new_events ?s1 (snd (get_cached_image e' url' p hdrs' ?s1)))"
    for e' url' hdrs'
    by (rule get_cached_image_miss_requests)
  with run show ?thesis
    by (intro exI [of _ ?s1]) (simp add: new_events_def)
qed

theorem failed_fetch_leaves_no_file_witness:
  "fs empty_state ''cache/logos/a1.png'' = None
   \<and> (\<exists>s1. get_cached_image offline_env ''http://jf.lan:8096/Items/a1/Images/Logo?maxWidth=300''
              ''cache/logos/a1.png'' [] empty_state = (None, s1)
      \<and> fs s1 = fs empty_state
      \<and> new_events empty_state s1
          = [PathExists ''cache/logos/a1.png'',
             HttpGet ''http://jf.lan:8096/Items/a1/Images/Logo?maxWidth=300'' []]
      \<and> (\<forall>e' url' hdrs'.
            HttpGet url' hdrs'
              \<in> set (new_events s1 (snd (get_cached_image e' url' ''cache/logos/a1.png'' hdrs' s1)))))"
proof -
  have h1: "fs empty_state ''cache/logos/a1.png'' = None"
    by (simp add: empty_state_def)
  have h2: "http offline_env (trace empty_state @ [PathExists ''cache/logos/a1.png''])
       ''http://jf.lan:8096/Items/a1/Images/Logo?maxWidth=300'' [] = RequestException
     \<or> (\<exists>r. http offline_env (trace empty_state @ [PathExists ''cache/logos/a1.png''])
       ''http://jf.lan:8096/Items/a1/Images/Logo?maxWidth=300'' [] = Response r
         \<and> 400 \<le> status_code r \<and> status_code r < 600)"
    by (simp add: offline_request)
  from failed_fetch_leaves_no_file [OF h1 h2] h1 show ?thesis by blast
qed

text \<open>
  A response with a status outside 200 to 299 that \<open>raise_for_status\<close> lets pass (here 300,
  which \<open>requests\<close> returns as it is) is stored and returned like a success.
\<close>

theorem failed_fetch_counterexample:
  "fs empty_state ''cache/posters/a1.jpg'' = None
   \<and> http (demo_env 300) (trace empty_state @ [PathExists ''cache/posters/a1.jpg''])
        ''http://jf.lan:8096/Items/a1/Images/Primary?maxWidth=300'' []
      = Response (image_response 300)
   \<and> \<not> (200 \<le> status_code (image_response 300) \<and> status_code (image_response 300) < 300)
   \<and> fst (get_cached_image (demo_env 300)
            ''http://jf.lan:8096/Items/a1/Images/Primary?maxWidth=300''
            ''cache/posters/a1.jpg'' [] empty_state) = Some ''GIF89a..''
   \<and> fs (snd (get_cached_image (demo_env 300)
            ''http://jf.lan:8096/Items/a1/Images/Primary?maxWidth=300''
            ''cache/posters/a1.jpg'' [] empty_state)) ''cache/posters/a1.jpg''
      = Some (Regular ''GIF89a..'')"
proof -
  have h1: "fs empty_state ''cache/posters/a1.jpg'' = None"
    by (simp add: empty_state_def)
  have h2: "http (demo_env 300) (trace empty_state @ [PathExists ''cache/posters/a1.jpg''])
      ''http://jf.lan:8096/Items/a1/Images/Primary?maxWidth=300'' []
     = Response (image_response 300)"
    by (rule demo_image_request)
  have h3: "\<not> raise_for_status (image_response 300)"
    by (simp add: raise_for_status_def image_response_def)
  have h4: "disk (demo_env 300) ''cache/posters/a1.jpg'' = Written"
    by (simp add: demo_env_def)
  have h5: "content (image_response 300) = ''GIF89a..''" "status_code (image_response 300) = 300"
    by (simp_all add: image_response_def)
  note run = get_cached_image_fetched [OF h1 h2 h3 h4]
  show ?thesis
    unfolding run using h1 h2 h5 by simp
qed

text \<open>
  C3. When the listing request raises (network error, timeout), or its status is one that
  \<open>raise_for_status\<close> rejects (400 to 599), or its body does not parse, \<open>get_latest_items\<close>
  returns the empty list after the one request. The function has no error result at all:
  the handler of line 39 catches every exception of the \<open>try\<close> block.
\<close>

theorem listing_failure_gives_empty:
  assumes "http e (trace s) (JELLYFIN_API_URL e) (auth_headers e) = RequestException
         \<or> (\<exists>r. http e (trace s) (JELLYFIN_API_URL e) (auth_headers e) = Response r
                \<and> ((400 \<le> status_code r \<and> status_code r < 600) \<or> json_body r = None))"
  shows "get_latest_items e s = (JList [], log (HttpGet (JELLYFIN_API_URL e) (auth_headers e)) s)"
  using assms
  by (auto simp: get_latest_items_def requests_get_def raise_for_status_def)

theorem listing_failure_gives_empty_witness:
  "http offline_env (trace empty_state) (JELLYFIN_API_URL offline_env) (auth_headers offline_env)
     = RequestException
   \<and> get_latest_items offline_env empty_state
     = (JList [],
        log (HttpGet (JELLYFIN_API_URL offline_env) (auth_headers offline_env)) empty_state)"
  using listing_failure_gives_empty [of offline_env empty_state]
  by (simp add: offline_request)

text \<open>
  A listing answered with status 300 and a body that parses is returned as parsed, not as
  the empty list.
\<close>

theorem listing_failure_counterexample:
  "http (demo_env 300) (trace empty_state) (JELLYFIN_API_URL (demo_env 300))
       (auth_headers (demo_env 300)) = Response (listing_response 300)
   \<and> \<not> (200 \<le> status_code (listing_response 300) \<and> status_code (listing_response 300) < 300)
   \<and> fst (get_latest_items (demo_env 300) empty_state) = JList demo_items
   \<and> JList demo_items \<noteq> JList []"
  by (simp add: get_latest_items_def requests_get_def demo_listing_request raise_for_status_def
      listing_response_def demo_items_def)

text \<open>
  C4. If one of the five required settings is unset or empty, the run returns at line 77
  with the state untouched: no event (request, cache access, mail session) is added to the
  trace and the file system is as before.
\<close>

theorem missing_setting_aborts:
  assumes "var \<in> set required_vars" and "missing e var"
  shows "(\<exists>v. send_jellyfin_email e s = (ConfigMissing v, s))
      \<and> new_events s (snd (send_jellyfin_email e s)) = []"
proof -
  from assms have "find (missing e) required_vars \<noteq> None"
    by (auto simp: find_None_iff)
  then show ?thesis
    by (auto simp: send_jellyfin_email_def new_events_def)
qed

theorem missing_setting_aborts_witness:
  "''RECIPIENT_EMAILS'' \<in> set required_vars \<and> missing unconfigured_env ''RECIPIENT_EMAILS''
   \<and> (\<exists>v. send_jellyfin_email unconfigured_env empty_state = (ConfigMissing v, empty_state))
   \<and> new_events empty_state (snd (send_jellyfin_email unconfigured_env empty_state)) = []"
proof -
  have h1: "''RECIPIENT_EMAILS'' \<in> set required_vars"
    by (simp add: required_vars_def)
  have h2: "missing unconfigured_env ''RECIPIENT_EMAILS''"
    by (simp add: missing_def unconfigured_env_def)
  from missing_setting_aborts [OF h1 h2] h1 h2 show ?thesis by blast
qed

text \<open>
  C6. When what the fetcher returns is empty (more generally, false in the test of line
  82), the run adds no mail event to the trace and ends neither in \<open>Sent\<close> nor in
  \<open>SendFailed\<close>; with a complete configuration it returns at line 84, right after the
  listing request.
\<close>

theorem no_items_no_dispatch:
  assumes "\<not> truthy_payload (fst (get_latest_items e s))"
  shows "filter is_dispatch (new_events s (snd (send_jellyfin_email e s))) = []
      \<and> fst (send_jellyfin_email e s) \<noteq> Sent \<and> fst (send_jellyfin_email e s) \<noteq> SendFailed
      \<and> (find (missing e) required_vars = None \<longrightarrow>
           send_jellyfin_email e s = (NoItems, snd (get_latest_items e s)))"
proof (cases "find (missing e) required_vars")
  case None
  obtain items s1 where fetch: "get_latest_items e s = (items, s1)"
    by (cases "get_latest_items e s")
  with get_latest_items_state [of e s]
  have s1: "s1 = log (HttpGet (JELLYFIN_API_URL e) (auth_headers e)) s" by simp
  from fetch assms None have "send_jellyfin_email e s = (NoItems, s1)"
    by (simp add: send_jellyfin_email_def)
  with fetch None s1 show ?thesis
    by (simp add: new_events_def log_def is_dispatch_def)
next
  case (Some v)
  then have "send_jellyfin_email e s = (ConfigMissing v, s)"
    by (simp add: send_jellyfin_email_def)
  with Some show ?thesis
    by (simp add: new_events_def)
qed

theorem no_items_no_dispatch_witness:
  "\<not> truthy_payload (fst (get_latest_items offline_env empty_state))
   \<and> filter is_dispatch (new_events empty_state (snd (send_jellyfin_email offline_env empty_state))) = []
   \<and> send_jellyfin_email offline_env empty_state
       = (NoItems, snd (get_latest_items offline_env empty_state))"
proof -
  have fetch: "get_latest_items offline_env empty_state
     = (JList [], log (HttpGet (JELLYFIN_API_URL offline_env) (auth_headers offline_env)) empty_state)"
    by (simp add: get_latest_items_def requests_get_def offline_request)
  then have h: "\<not> truthy_payload (fst (get_latest_items offline_env empty_state))"
    by (simp add: truthy_payload_def)
  have cfg: "find (missing offline_env) required_vars = None"
    by (simp add: required_vars_def missing_def offline_env_def demo_env_def demo_environ_def)
  from no_items_no_dispatch [OF h] h cfg show ?thesis by blast
qed

section \<open>The base URL\<close>

lemma py_contains_sublist: "py_contains sub s \<longleftrightarrow> sublist sub s"
  by (induction s) (simp_all add: sublist_Cons_right)

lemma split_once_None: "sep \<noteq> [] \<Longrightarrow> split_once sep s = None \<Longrightarrow> \<not> sublist sep s"
proof (induction s)
  case Nil
  then show ?case by simp
next
  case (Cons c cs)
  then show ?case
    by (auto simp: sublist_Cons_right split: if_splits option.splits)
qed

lemma split_once_Some:
  assumes "sep \<noteq> []" and "split_once sep s = Some (a, b)"
  shows "s = a @ sep @ b \<and> (\<forall>p r. s = p @ sep @ r \<longrightarrow> length a \<le> length p)"
  using assms(2)
proof (induction s arbitrary: a)
  case Nil
  with assms(1) show ?case by simp
next
  case (Cons c cs)
  show ?case
  proof (cases "prefix sep (c # cs)")
    case True
    with Cons.prems have "a = []" "b = drop (length sep) (c # cs)" by simp_all
    moreover from True obtain r where "c # cs = sep @ r" by (auto simp: prefix_def)
    ultimately show ?thesis by simp
  next
    case False
    with Cons.prems obtain a' where cut: "split_once sep cs = Some (a', b)" and a: "a = c # a'"
      by (auto split: option.splits)
    from Cons.IH [OF cut]
    have eq: "cs = a' @ sep @ b" and least: "\<forall>p r. cs = p @ sep @ r \<longrightarrow> length a' \<le> length p"
      by simp_all
    have "length a \<le> length p" if "c # cs = p @ sep @ r" for p r
    proof (cases p)
      case Nil
      with that have "prefix sep (c # cs)" by (simp add: prefix_def)
      with False show ?thesis by simp
    next
      case (Cons x q)
      with that have "cs = q @ sep @ r" by simp
      with least have "length a' \<le> length q" by blast
      with a Cons show ?thesis by simp
    qed
    with eq a show ?thesis by simp
  qed
qed

lemma hd_py_split:
  "sep \<noteq> [] \<Longrightarrow> hd (py_split s sep) = (case split_once sep s of None \<Rightarrow> s | Some (a, b) \<Rightarrow> a)"
  by (subst py_split.simps) (simp split: option.splits)

lemma hd_py_split_first:
  assumes "m \<noteq> []" and "sublist m u"
  shows "(\<exists>r. u = hd (py_split u m) @ m @ r)
       \<and> (\<forall>p r. u = p @ m @ r \<longrightarrow> length (hd (py_split u m)) \<le> length p)"
proof -
  have "split_once m u \<noteq> None"
  proof
    assume "split_once m u = None"
    with assms(1) have "\<not> sublist m u" by (rule split_once_None)
    with assms(2) show False by contradiction
  qed
  then obtain ab where "split_once m u = Some ab" by (cases "split_once m u") simp_all
  then obtain a b where cut: "split_once m u = Some (a, b)" by (cases ab) simp
  from assms(1) cut have hd: "hd (py_split u m) = a"
    by (simp add: hd_py_split)
  from split_once_Some [OF assms(1) cut]
  have 1: "u = a @ m @ b" and 2: "\<forall>p r. u = p @ m @ r \<longrightarrow> length a \<le> length p"
    by (rule conjunct1, rule conjunct2)
  from 1 have ex: "\<exists>r. u = a @ m @ r" by (rule exI)
  from ex 2 show ?thesis unfolding hd by (rule conjI)
qed

text \<open>
  C8. When the listing endpoint contains the marker \<open>/Users/\<close>, the base URL is the part
  of the endpoint in front of the first occurrence of the marker: the endpoint is the base,
  then the marker, then a rest, and no occurrence of the marker starts earlier. When the
  endpoint does not contain the marker, the base URL is \<open>http://localhost:8096\<close>.
\<close>

theorem base_url_from_listing_endpoint:
  "(sublist ''/Users/'' api_url \<longrightarrow>
      (\<exists>r. api_url = jellyfin_base_url api_url @ ''/Users/'' @ r)
      \<and> (\<forall>p r. api_url = p @ ''/Users/'' @ r \<longrightarrow> length (jellyfin_base_url api_url) \<le> length p))
   \<and> (\<not> sublist ''/Users/'' api_url \<longrightarrow> jellyfin_base_url api_url = ''http://localhost:8096'')"
proof (cases "sublist ''/Users/'' api_url")
  case True
  have ne: "''/Users/'' \<noteq> []" by (rule list.distinct(2))
  from True have eq: "jellyfin_base_url api_url = hd (py_split api_url ''/Users/'')"
    by (simp only: jellyfin_base_url_def py_contains_sublist if_True)
  note first = hd_py_split_first [OF ne True, folded eq]
  show ?thesis
  proof (rule conjI)
    show "sublist ''/Users/'' api_url \<longrightarrow>
      (\<exists>r. api_url = jellyfin_base_url api_url @ ''/Users/'' @ r)
      \<and> (\<forall>p r. api_url = p @ ''/Users/'' @ r \<longrightarrow> length (jellyfin_base_url api_url) \<le> length p)"
      by (rule impI) (rule first)
    from True show "\<not> sublist ''/Users/'' api_url \<longrightarrow>
        jellyfin_base_url api_url = ''http://localhost:8096''"
      by (simp only: simp_thms)
  qed
next
  case False
  then have fallback: "jellyfin_base_url api_url = ''http://localhost:8096''"
    by (simp only: jellyfin_base_url_def py_contains_sublist if_False)
  show ?thesis
  proof (rule conjI)
    from False show "sublist ''/Users/'' api_url \<longrightarrow>
      (\<exists>r. api_url = jellyfin_base_url api_url @ ''/Users/'' @ r)
      \<and> (\<forall>p r. api_url = p @ ''/Users/'' @ r \<longrightarrow> length (jellyfin_base_url api_url) \<le> length p)"
      by (simp only: simp_thms)
    show "\<not> sublist ''/Users/'' api_url \<longrightarrow> jellyfin_base_url api_url = ''http://localhost:8096''"
      by (rule impI) (rule fallback)
  qed
qed

lemma demo_url_contains: "sublist ''/Users/'' ''http://jf.lan:8096/Users/u1/Items/Latest''"
  unfolding py_contains_sublist [symmetric] by simp

lemma other_url_lacks: "\<not> sublist ''/Users/'' ''http://jf.lan:8096/emby/Items''"
  unfolding py_contains_sublist [symmetric] by simp

theorem base_url_from_listing_endpoint_witness:
  "sublist ''/Users/'' ''http://jf.lan:8096/Users/u1/Items/Latest''
   \<and> \<not> sublist ''/Users/'' ''http://jf.lan:8096/emby/Items''
   \<and> (\<exists>r. ''http://jf.lan:8096/Users/u1/Items/Latest''
           = jellyfin_base_url ''http://jf.lan:8096/Users/u1/Items/Latest'' @ ''/Users/'' @ r)
   \<and> jellyfin_base_url ''http://jf.lan:8096/emby/Items'' = ''http://localhost:8096''"
proof -
  note hit = base_url_from_listing_endpoint [of "''http://jf.lan:8096/Users/u1/Items/Latest''",
      THEN conjunct1, THEN mp, OF demo_url_contains, THEN conjunct1]
  note miss = base_url_from_listing_endpoint [of "''http://jf.lan:8096/emby/Items''",
      THEN conjunct2, THEN mp, OF other_url_lacks]
  from demo_url_contains other_url_lacks hit miss show ?thesis
    by (intro conjI)
qed

lemma demo_base:
  "jellyfin_base_url ''http://jf.lan:8096/Users/u1/Items/Latest'' = ''http://jf.lan:8096''"
  by (simp add: jellyfin_base_url_def hd_py_split)

section \<open>The message composer\<close>

lemma attach_image_absent: "\<not> obtained img \<Longrightarrow> attach_image e cid img ps = Inr (None, ps)"
  by (simp add: attach_image_def obtained_def split: option.splits)

lemma attach_image_Inr:
  assumes "attach_image e cid img ps = Inr (c, ps')"
  shows "c = (if obtained img then Some cid else None)
       \<and> map content_id ps' = map content_id ps @ (if obtained img then [''<'' @ cid @ ''>''] else [])"
  using assms
  by (auto simp: attach_image_def obtained_def split: option.splits if_splits)

lemma attach_image_total:
  assumes "\<forall>b. b \<noteq> [] \<longrightarrow> what e b \<noteq> None"
  shows "\<exists>c ps'. attach_image e cid img ps = Inr (c, ps')"
proof (cases "obtained img")
  case False
  then show ?thesis by (simp add: attach_image_absent)
next
  case True
  then obtain b where img: "img = Some b" and b: "b \<noteq> []"
    by (auto simp: obtained_def split: option.splits)
  with assms obtain t where "what e b = Some t" by auto
  with img b show ?thesis by (simp add: attach_image_def)
qed

lemma process_item_Inr:
  assumes "process_item e base hdrs item d = Inr d'"
  shows "\<exists>fl. html_content d' = html_content d @ rendered_block item fl
            \<and> map content_id (attached d') = map content_id (attached d) @ block_cids item fl"
proof -
  let ?i = "item_ident item"
  obtain pb s1 where p: "get_cached_image e (poster_url base ?i) (poster_path ?i) hdrs (world d) = (pb, s1)"
    by (cases "get_cached_image e (poster_url base ?i) (poster_path ?i) hdrs (world d)")
  obtain lb s2 where l: "get_cached_image e (logo_url base ?i) (logo_path ?i) hdrs s1 = (lb, s2)"
    by (cases "get_cached_image e (logo_url base ?i) (logo_path ?i) hdrs s1")
  from assms p obtain pc ps1 where a1: "attach_image e (''poster_'' @ ?i) pb (attached d) = Inr (pc, ps1)"
    by (cases "attach_image e (''poster_'' @ ?i) pb (attached d)") (auto simp: process_item_def Let_def)
  from assms p a1 l obtain lc ps2 where a2: "attach_image e (''logo_'' @ ?i) lb ps1 = Inr (lc, ps2)"
    by (cases "attach_image e (''logo_'' @ ?i) lb ps1") (auto simp: process_item_def Let_def)
  from assms p a1 l a2 have d': "d' = \<lparr>html_content = html_content d
        @ item_html (item_title item) (item_kind item) pc lc, attached = ps2, world = s2\<rparr>"
    by (simp add: process_item_def Let_def)
  note r1 = attach_image_Inr [OF a1] and r2 = attach_image_Inr [OF a2]
  let ?fl = "(obtained pb, obtained lb)"
  from d' r1 r2 have "html_content d' = html_content d @ rendered_block item ?fl"
    by (simp add: rendered_block_def)
  moreover from d' r1 r2
  have "map content_id (attached d') = map content_id (attached d) @ block_cids item ?fl"
    by (simp add: block_cids_def)
  ultimately show ?thesis by blast
qed

lemma process_item_total:
  assumes "\<forall>b. b \<noteq> [] \<longrightarrow> what e b \<noteq> None"
  shows "\<exists>d'. process_item e base hdrs item d = Inr d'"
proof -
  let ?i = "item_ident item"
  obtain pb s1 where p: "get_cached_image e (poster_url base ?i) (poster_path ?i) hdrs (world d) = (pb, s1)"
    by (cases "get_cached_image e (poster_url base ?i) (poster_path ?i) hdrs (world d)")
  obtain lb s2 where l: "get_cached_image e (logo_url base ?i) (logo_path ?i) hdrs s1 = (lb, s2)"
    by (cases "get_cached_image e (logo_url base ?i) (logo_path ?i) hdrs s1")
  from attach_image_total [OF assms]
  obtain pc ps1 where a1: "attach_image e (''poster_'' @ ?i) pb (attached d) = Inr (pc, ps1)"
    by blast
  from attach_image_total [OF assms]
  obtain lc ps2 where a2: "attach_image e (''logo_'' @ ?i) lb ps1 = Inr (lc, ps2)"
    by blast
  from p l a1 a2 show ?thesis
    by (simp add: process_item_def Let_def)
qed

lemma items_loop_shape:
  assumes "items_loop e base hdrs els d = Inr d'"
  shows "\<exists>fls. length fls = length (retained els)
      \<and> html_content d' = html_content d @ concat (map2 rendered_block (retained els) fls)
      \<and> map content_id (attached d')
          = map content_id (attached d) @ concat (map2 block_cids (retained els) fls)"
  using assms
proof (induction els arbitrary: d)
  case Nil
  then show ?case by simp
next
  case (Cons el els)
  from Cons.prems obtain d1 where body: "loop_body e base hdrs el d = Inr d1"
    and rest: "items_loop e base hdrs els d1 = Inr d'"
    by (cases "loop_body e base hdrs el d") simp_all
  from Cons.IH [OF rest] obtain fls where fls: "length fls = length (retained els)"
    "html_content d' = html_content d1 @ concat (map2 rendered_block (retained els) fls)"
    "map content_id (attached d')
       = map content_id (attached d1) @ concat (map2 block_cids (retained els) fls)"
    by blast
  show ?case
  proof (cases el)
    case ENonObj
    with body show ?thesis by (simp add: loop_body_def)
  next
    case (EObj item)
    show ?thesis
    proof (cases "has_identity item")
      case False
      with body EObj have "d1 = d" by (simp add: loop_body_def)
      with fls EObj False show ?thesis by auto
    next
      case True
      with body EObj have "process_item e base hdrs item d = Inr d1"
        by (simp add: loop_body_def)
      from process_item_Inr [OF this] obtain fl where
        "html_content d1 = html_content d @ rendered_block item fl"
        "map content_id (attached d1) = map content_id (attached d) @ block_cids item fl"
        by blast
      with fls EObj True have "length (fl # fls) = length (retained (el # els))
        \<and> html_content d' = html_content d @ concat (map2 rendered_block (retained (el # els)) (fl # fls))
        \<and> map content_id (attached d')
          = map content_id (attached d) @ concat (map2 block_cids (retained (el # els)) (fl # fls))"
        by simp
      then show ?thesis by blast
    qed
  qed
qed

lemma items_loop_total:
  assumes "\<forall>b. b \<noteq> [] \<longrightarrow> what e b \<noteq> None" and "ENonObj \<notin> set els"
  shows "\<exists>d'. items_loop e base hdrs els d = Inr d'"
  using assms(2)
proof (induction els arbitrary: d)
  case Nil
  then show ?case by simp
next
  case (Cons el els)
  then obtain item where el: "el = EObj item" by (cases el) auto
  have "\<exists>d1. loop_body e base hdrs el d = Inr d1"
  proof (cases "has_identity item")
    case True
    with el process_item_total [OF assms(1)] show ?thesis by (simp add: loop_body_def)
  next
    case False
    with el show ?thesis by (simp add: loop_body_def)
  qed
  then obtain d1 where "loop_body e base hdrs el d = Inr d1" by blast
  moreover from Cons obtain d' where "items_loop e base hdrs els d1 = Inr d'" by auto
  ultimately show ?case by simp
qed

lemma compose_JList:
  "compose e (JList items) s =
     (case items_loop e (jellyfin_base_url (JELLYFIN_API_URL e)) (auth_headers e) (take 10 items)
             \<lparr>html_content = html_open (JELLYFIN_WEB_URL e), attached = [], world = s\<rparr> of
        Inl x \<Rightarrow> Inl x
      | Inr d \<Rightarrow>
          Inr (\<lparr>subject = EMAIL_SUBJECT e, sender = SENDER_EMAIL e,
                recipients_header = py_join '', '' (RECIPIENT_EMAILS e),
                html_body = html_content d @ html_close, parts = attached d\<rparr>,
               world d))"
  by (simp add: compose_def first10_def)

lemma compose_shape:
  assumes "compose e (JList items) s = Inr (msg, s')"
  shows "\<exists>fls. length fls = length (retained (take 10 items))
      \<and> html_body msg = html_open (JELLYFIN_WEB_URL e)
          @ concat (map2 rendered_block (retained (take 10 items)) fls) @ html_close
      \<and> map content_id (parts msg) = concat (map2 block_cids (retained (take 10 items)) fls)"
proof -
  let ?d0 = "\<lparr>html_content = html_open (JELLYFIN_WEB_URL e), attached = [], world = s\<rparr>"
  from assms obtain d where loop: "items_loop e (jellyfin_base_url (JELLYFIN_API_URL e))
      (auth_headers e) (take 10 items) ?d0 = Inr d"
    and msg: "html_body msg = html_content d @ html_close" "parts msg = attached d"
    unfolding compose_JList
    by (cases "items_loop e (jellyfin_base_url (JELLYFIN_API_URL e)) (auth_headers e)
        (take 10 items) ?d0") auto
  from items_loop_shape [OF loop] obtain fls where
    "length fls = length (retained (take 10 items))"
    "html_content d = html_content ?d0 @ concat (map2 rendered_block (retained (take 10 items)) fls)"
    "map content_id (attached d)
       = map content_id (attached ?d0) @ concat (map2 block_cids (retained (take 10 items)) fls)"
    by blast
  with msg have "length fls = length (retained (take 10 items))
      \<and> html_body msg = html_open (JELLYFIN_WEB_URL e)
          @ concat (map2 rendered_block (retained (take 10 items)) fls) @ html_close
      \<and> map content_id (parts msg) = concat (map2 block_cids (retained (take 10 items)) fls)"
    by simp
  then show ?thesis by blast
qed

lemma compose_total:
  assumes "\<forall>b. b \<noteq> [] \<longrightarrow> what e b \<noteq> None" and "ENonObj \<notin> set (take 10 items)"
  shows "\<exists>msg s'. compose e (JList items) s = Inr (msg, s')"
proof -
  from items_loop_total [OF assms] obtain d where
    "items_loop e (jellyfin_base_url (JELLYFIN_API_URL e)) (auth_headers e) (take 10 items)
       \<lparr>html_content = html_open (JELLYFIN_WEB_URL e), attached = [], world = s\<rparr> = Inr d"
    by blast
  then show ?thesis unfolding compose_JList by simp
qed

lemma compose_take: "compose e (JList items) s = compose e (JList (take 10 items)) s"
  unfolding compose_JList by simp

lemma demo_items_objects: "ENonObj \<notin> set (take 10 demo_items)"
  by (simp add: demo_items_def demo_item_def)

lemma demo_what: "\<forall>b. b \<noteq> [] \<longrightarrow> what (demo_env code) b \<noteq> None"
  by (simp add: demo_env_def)

subsection \<open>An image body that is no image\<close>

lemma attach_image_unrecognised:
  "b \<noteq> [] \<Longrightarrow> what e b = None \<Longrightarrow> attach_image e cid (Some b) ps = Inl TypeError"
  by (simp add: attach_image_def)

lemma process_item_unrecognised:
  assumes "get_cached_image e (poster_url base (item_ident item)) (poster_path (item_ident item))
             hdrs (world d) = (Some b, s1)"
    and "b \<noteq> []" and "what e b = None"
  shows "process_item e base hdrs item d = Inl (TypeError, s1)"
  using assms by (simp add: process_item_def Let_def attach_image_unrecognised)

lemma proxy_listing:
  "get_latest_items proxy_env s
     = (JList [EObj plain_item],
        log (HttpGet (JELLYFIN_API_URL proxy_env) (auth_headers proxy_env)) s)"
  by (simp add: get_latest_items_def requests_get_def proxy_env_def demo_env_def proxy_http_def
      JELLYFIN_API_URL_def getenv_default_def demo_environ_def single_listing_def
      raise_for_status_def)

lemma proxy_page:
  "url \<noteq> ''http://jf.lan:8096/Users/u1/Items/Latest'' \<Longrightarrow>
   http proxy_env tr url hdrs = Response page_response"
  by (simp add: proxy_env_def proxy_http_def)

lemma poster_url_not_listing:
  "poster_url (jellyfin_base_url (JELLYFIN_API_URL proxy_env)) (item_ident plain_item)
     = ''http://jf.lan:8096/Items/a1/Images/Primary?maxWidth=300''"
proof -
  have "JELLYFIN_API_URL proxy_env = ''http://jf.lan:8096/Users/u1/Items/Latest''"
    by (simp add: JELLYFIN_API_URL_def getenv_default_def proxy_env_def demo_env_def
        demo_environ_def)
  then have "jellyfin_base_url (JELLYFIN_API_URL proxy_env) = ''http://jf.lan:8096''"
    using demo_base by (simp add: JELLYFIN_API_URL_def)
  moreover have "item_ident plain_item = ''a1''"
    by (simp add: item_ident_def plain_item_def dict_get_def)
  ultimately show ?thesis by (simp add: poster_url_def)
qed


lemma proxy_configured: "find (missing proxy_env) required_vars = None"
  by (simp add: required_vars_def missing_def proxy_env_def demo_env_def demo_environ_def)

lemma proxy_poster:
  assumes "fs s = Map.empty"
  shows "get_cached_image proxy_env
           (poster_url (jellyfin_base_url (JELLYFIN_API_URL proxy_env)) (item_ident plain_item))
           (poster_path (item_ident plain_item)) hdrs s
         = (Some ''<html>Sign in</html>'',
            \<lparr>fs = (fs s)(poster_path (item_ident plain_item) \<mapsto> Regular ''<html>Sign in</html>''),
             trace = trace s @ [PathExists (poster_path (item_ident plain_item)),
               HttpGet (poster_url (jellyfin_base_url (JELLYFIN_API_URL proxy_env))
                          (item_ident plain_item)) hdrs,
               OpenWrite (poster_path (item_ident plain_item)),
               OpenRead (poster_path (item_ident plain_item))]\<rparr>)"
proof -
  let ?p = "poster_path (item_ident plain_item)"
  let ?u = "poster_url (jellyfin_base_url (JELLYFIN_API_URL proxy_env)) (item_ident plain_item)"
  from assms have h1: "fs s ?p = None" by simp
  have "?u \<noteq> ''http://jf.lan:8096/Users/u1/Items/Latest''"
    unfolding poster_url_not_listing by simp
  then have h2: "http proxy_env (trace s @ [PathExists ?p]) ?u hdrs = Response page_response"
    by (rule proxy_page)
  have h3: "\<not> raise_for_status page_response"
    by (simp add: raise_for_status_def page_response_def)
  have h4: "disk proxy_env ?p = Written"
    by (simp add: proxy_env_def demo_env_def)
  have c: "content page_response = ''<html>Sign in</html>''"
    by (simp add: page_response_def)
  from get_cached_image_fetched [OF h1 h2 h3 h4] show ?thesis
    unfolding c .
qed

lemma page_unrecognised: "what proxy_env ''<html>Sign in</html>'' = None"
  by (simp add: proxy_env_def gif_only_def)

lemma proxy_compose:
  assumes "fs s = Map.empty"
  shows "compose proxy_env (JList [EObj plain_item]) s
     = Inl (TypeError,
            \<lparr>fs = (fs s)(poster_path (item_ident plain_item) \<mapsto> Regular ''<html>Sign in</html>''),
             trace = trace s @ [PathExists (poster_path (item_ident plain_item)),
               HttpGet (poster_url (jellyfin_base_url (JELLYFIN_API_URL proxy_env))
                          (item_ident plain_item)) (auth_headers proxy_env),
               OpenWrite (poster_path (item_ident plain_item)),
               OpenRead (poster_path (item_ident plain_item))]\<rparr>)"
proof -
  let ?d0 = "\<lparr>html_content = html_open (JELLYFIN_WEB_URL proxy_env), attached = [], world = s\<rparr>"
  from assms have "fs (world ?d0) = Map.empty" by simp
  note fetch = proxy_poster [OF this, of "auth_headers proxy_env"]
  have "''<html>Sign in</html>'' \<noteq> []" by simp
  note crash = process_item_unrecognised [OF fetch this page_unrecognised]
  have "has_identity plain_item"
    by (simp add: has_identity_def plain_item_def dict_get_def)
  with crash have "loop_body proxy_env (jellyfin_base_url (JELLYFIN_API_URL proxy_env))
      (auth_headers proxy_env) (EObj plain_item) ?d0
     = Inl (TypeError,
            \<lparr>fs = (fs s)(poster_path (item_ident plain_item) \<mapsto> Regular ''<html>Sign in</html>''),
             trace = trace s @ [PathExists (poster_path (item_ident plain_item)),
               HttpGet (poster_url (jellyfin_base_url (JELLYFIN_API_URL proxy_env))
                          (item_ident plain_item)) (auth_headers proxy_env),
               OpenWrite (poster_path (item_ident plain_item)),
               OpenRead (poster_path (item_ident plain_item))]\<rparr>)"
    by (simp add: loop_body_def)
  then show ?thesis
    unfolding compose_JList by simp
qed

lemma plain_poster_path: "poster_path (item_ident plain_item) = ''cache/posters/a1.jpg''"
  by (simp add: poster_path_def item_ident_def plain_item_def dict_get_def path_join_def
      POSTER_CACHE_DIR_def suffix_to_prefix)

text \<open>
  C1. One block for each item with an identity among the first ten entries is not what the
  code delivers on every list. Here the listing holds one item, with \<open>Id\<close> \<open>a1\<close>, and the
  poster request is answered with status 200 and a body that is no image. The body is
  stored in the cache and returned; \<open>MIMEImage\<close> at line 137 raises \<open>TypeError\<close>, which
  nothing in the loop catches (the request, the file access and the mail session are each
  inside a \<open>try\<close>). The run ends with the exception: no block, no message, no mail
  session, and the cache keeps the body, so that the next run fails at the same item.
\<close>

theorem unrecognised_image_stops_composer:
  "fst (get_latest_items proxy_env empty_state) = JList [EObj plain_item]
   \<and> retained (take 10 [EObj plain_item]) = [plain_item]
   \<and> isl (compose proxy_env (JList [EObj plain_item])
            (snd (get_latest_items proxy_env empty_state)))
   \<and> fst (send_jellyfin_email proxy_env empty_state) = Crashed TypeError
   \<and> filter is_dispatch (trace (snd (send_jellyfin_email proxy_env empty_state))) = []
   \<and> fs (snd (send_jellyfin_email proxy_env empty_state)) ''cache/posters/a1.jpg''
       = Some (Regular ''<html>Sign in</html>'')"
proof -
  let ?s1 = "log (HttpGet (JELLYFIN_API_URL proxy_env) (auth_headers proxy_env)) empty_state"
  have listing: "get_latest_items proxy_env empty_state = (JList [EObj plain_item], ?s1)"
    by (rule proxy_listing)
  have kept: "retained (take 10 [EObj plain_item]) = [plain_item]"
    by (simp add: has_identity_def plain_item_def dict_get_def)
  have "fs ?s1 = Map.empty" by (simp add: log_simps empty_state_def)
  note crash = proxy_compose [OF this]
  have run: "send_jellyfin_email proxy_env empty_state
     = (Crashed TypeError,
        \<lparr>fs = (fs ?s1)(poster_path (item_ident plain_item) \<mapsto> Regular ''<html>Sign in</html>''),
         trace = trace ?s1 @ [PathExists (poster_path (item_ident plain_item)),
               HttpGet (poster_url (jellyfin_base_url (JELLYFIN_API_URL proxy_env))
                          (item_ident plain_item)) (auth_headers proxy_env),
               OpenWrite (poster_path (item_ident plain_item)),
               OpenRead (poster_path (item_ident plain_item))]\<rparr>)"
    by (simp add: send_jellyfin_email_def proxy_configured listing truthy_payload_def crash)
  have c1: "fst (get_latest_items proxy_env empty_state) = JList [EObj plain_item]"
    by (simp add: listing)
  have c3: "isl (compose proxy_env (JList [EObj plain_item])
            (snd (get_latest_items proxy_env empty_state)))"
    by (simp add: listing crash)
  have c4: "fst (send_jellyfin_email proxy_env empty_state) = Crashed TypeError"
    by (simp add: run)
  have c5: "filter is_dispatch (trace (snd (send_jellyfin_email proxy_env empty_state))) = []"
    unfolding run by (simp add: log_simps empty_state_def is_dispatch_def)
  have c6: "fs (snd (send_jellyfin_email proxy_env empty_state)) ''cache/posters/a1.jpg''
       = Some (Regular ''<html>Sign in</html>'')"
    unfolding run by (simp add: plain_poster_path)
  from c1 kept c3 c4 c5 c6 show ?thesis by (intro conjI)
qed

subsection \<open>Content identifiers\<close>

lemma poster_cid_inj: "(''<poster_'' @ a @ ''>'' = ''<poster_'' @ b @ ''>'') = (a = b)"
  by simp

lemma logo_cid_inj: "(''<logo_'' @ a @ ''>'' = ''<logo_'' @ b @ ''>'') = (a = b)"
  by simp

lemma poster_logo_neq: "''<poster_'' @ a @ ''>'' \<noteq> ''<logo_'' @ b @ ''>''"
  by simp

lemma block_cids_cases:
  "x \<in> set (block_cids item fl) \<Longrightarrow>
     x = ''<poster_'' @ item_ident item @ ''>'' \<or> x = ''<logo_'' @ item_ident item @ ''>''"
  by (cases "fst fl"; cases "snd fl") (simp_all add: block_cids_def)

lemma block_cids_distinct: "distinct (block_cids item fl)"
  by (simp add: block_cids_def)

lemma all_cids_member:
  "x \<in> set (concat (map2 block_cids items fls)) \<Longrightarrow>
     \<exists>item \<in> set items. x = ''<poster_'' @ item_ident item @ ''>''
                      \<or> x = ''<logo_'' @ item_ident item @ ''>''"
proof (induction items arbitrary: fls)
  case Nil
  then show ?case by simp
next
  case (Cons item items)
  show ?case
  proof (cases fls)
    case Nil
    with Cons.prems show ?thesis by simp
  next
    case (Cons fl fls')
    with Cons.prems have "x \<in> set (block_cids item fl) \<or> x \<in> set (concat (map2 block_cids items fls'))"
      by simp
    then show ?thesis
    proof
      assume "x \<in> set (block_cids item fl)"
      from block_cids_cases [OF this] show ?thesis by (simp only: list.set insert_iff bex_simps) blast
    next
      assume "x \<in> set (concat (map2 block_cids items fls'))"
      from Cons.IH [OF this] show ?thesis by (simp only: list.set) blast
    qed
  qed
qed

lemma all_cids_distinct:
  "distinct (map item_ident items) \<Longrightarrow> distinct (concat (map2 block_cids items fls))"
proof (induction items arbitrary: fls)
  case Nil
  then show ?case by simp
next
  case (Cons item items)
  show ?case
  proof (cases fls)
    case Nil
    then show ?thesis by simp
  next
    case fls: (Cons fl fls')
    from Cons.prems have fresh: "item_ident item \<notin> item_ident ` set items"
      and rest: "distinct (map item_ident items)" by simp_all
    have disj: "set (block_cids item fl) \<inter> set (concat (map2 block_cids items fls')) = {}"
    proof (rule ccontr)
      assume "set (block_cids item fl) \<inter> set (concat (map2 block_cids items fls')) \<noteq> {}"
      then obtain x where x1: "x \<in> set (block_cids item fl)"
        and x2: "x \<in> set (concat (map2 block_cids items fls'))" by blast
      from all_cids_member [OF x2] obtain it where it: "it \<in> set items"
        and xit: "x = ''<poster_'' @ item_ident it @ ''>'' \<or> x = ''<logo_'' @ item_ident it @ ''>''"
        by blast
      from block_cids_cases [OF x1]
      have xitem: "x = ''<poster_'' @ item_ident item @ ''>'' \<or> x = ''<logo_'' @ item_ident item @ ''>''" .
      from xit xitem have "item_ident it = item_ident item"
        using poster_cid_inj [of "item_ident it" "item_ident item"]
          logo_cid_inj [of "item_ident it" "item_ident item"]
          poster_logo_neq [of "item_ident it" "item_ident item"]
          poster_logo_neq [of "item_ident item" "item_ident it"]
        by metis
      from it have "item_ident it \<in> item_ident ` set items" by (rule imageI)
      with \<open>item_ident it = item_ident item\<close> fresh show False by simp
    qed
    from Cons.IH [OF rest] have "distinct (concat (map2 block_cids items fls'))" .
    with disj block_cids_distinct [of item fl] fls show ?thesis by simp
  qed
qed

lemma string_ids_distinct:
  assumes "\<forall>item \<in> set items. \<exists>i. dict_get item ''Id'' = PStr i"
    and "distinct (map (\<lambda>item. dict_get item ''Id'') items)"
  shows "distinct (map item_ident items)"
proof -
  define g where "g = (\<lambda>item. dict_get item ''Id'')"
  from assms(1) have str: "\<forall>item \<in> set items. \<exists>i. g item = PStr i"
    by (simp add: g_def)
  have "inj_on py_str (g ` set items)"
  proof (rule inj_onI)
    fix a b
    assume "a \<in> g ` set items" and "b \<in> g ` set items" and eq: "py_str a = py_str b"
    with str obtain i j where "a = PStr i" "b = PStr j" by blast
    with eq show "a = b" by simp
  qed
  moreover from assms(2) have "distinct (map g items)"
    by (simp add: g_def)
  ultimately have "distinct (map (py_str \<circ> g) items)"
    by (simp add: distinct_map comp_inj_on)
  moreover have "item_ident = py_str \<circ> g"
    by (simp add: fun_eq_iff item_ident_def g_def)
  ultimately show ?thesis by (simp only:)
qed

text \<open>
  C7. In every message the composer produces from a list whose retained items carry
  strings as \<open>Id\<close> (the identity type of an item descriptor) that are pairwise distinct,
  the \<open>Content-ID\<close> headers of the inline image parts are pairwise distinct: the poster and
  the logo of one item differ, and so do the images of different items.
\<close>

theorem content_ids_distinct:
  assumes "compose e (JList items) s = Inr (msg, s')"
    and "\<forall>item \<in> set (retained (take 10 items)). \<exists>i. dict_get item ''Id'' = PStr i"
    and "distinct (map (\<lambda>item. dict_get item ''Id'') (retained (take 10 items)))"
  shows "distinct (map content_id (parts msg))"
proof -
  from compose_shape [OF assms(1)] obtain fls where
    "map content_id (parts msg) = concat (map2 block_cids (retained (take 10 items)) fls)"
    by blast
  moreover from assms(2,3) have "distinct (map item_ident (retained (take 10 items)))"
    by (rule string_ids_distinct)
  ultimately show ?thesis by (simp only: all_cids_distinct)
qed

lemma demo_retained:
  "retained (take 10 demo_items) =
     map (\<lambda>(i, t). [(''Id'', PStr i), (''Name'', PStr t), (''Type'', PStr ''Movie'')])
       [(''a1'', ''Alien''), (''a2'', ''Brazil''), (''a4'', ''Dune''), (''a5'', ''Eraserhead''),
        (''a6'', ''Fargo''), (''a7'', ''Gattaca''), (''a8'', ''Heat''), (''a9'', ''Ikiru''),
        (''a10'', ''Jaws'')]"
  by (simp add: demo_items_def demo_item_def has_identity_def dict_get_def)

lemma demo_ids:
  "map (\<lambda>item. dict_get item ''Id'') (retained (take 10 demo_items)) =
     map PStr [''a1'', ''a2'', ''a4'', ''a5'', ''a6'', ''a7'', ''a8'', ''a9'', ''a10'']"
  by (simp add: demo_retained dict_get_def)

theorem content_ids_distinct_witness:
  "\<exists>msg s'. compose (demo_env 200) (JList demo_items) empty_state = Inr (msg, s')
      \<and> distinct (map content_id (parts msg))"
proof -
  from compose_total [OF demo_what demo_items_objects]
  obtain msg s' where run: "compose (demo_env 200) (JList demo_items) empty_state = Inr (msg, s')"
    by blast
  have strings: "\<forall>item \<in> set (retained (take 10 demo_items)). \<exists>i. dict_get item ''Id'' = PStr i"
    by (simp add: demo_retained dict_get_def)
  have ids: "distinct (map (\<lambda>item. dict_get item ''Id'') (retained (take 10 demo_items)))"
    unfolding demo_ids by simp
  from content_ids_distinct [OF run strings ids] run show ?thesis by blast
qed

section \<open>Items without images\<close>

lemma prefix_img_append: "prefix ''img'' (t @ CHR ''<'' # r) = prefix ''img'' t"
proof (cases t)
  case Nil
  then show ?thesis by simp
next
  case t1: (Cons a t1)
  show ?thesis
  proof (cases t1)
    case Nil
    with t1 show ?thesis by simp
  next
    case t2: (Cons b t2)
    show ?thesis
    proof (cases t2)
      case Nil
      with t1 t2 show ?thesis by simp
    next
      case (Cons c t3)
      with t1 t2 show ?thesis by simp
    qed
  qed
qed

lemma contains_img_append:
  "py_contains ''<img'' (t @ CHR ''<'' # r)
     = (py_contains ''<img'' t \<or> py_contains ''<img'' (CHR ''<'' # r))"
proof (induction t)
  case Nil
  show ?case by simp
next
  case (Cons c t)
  have "prefix ''<img'' (c # t @ CHR ''<'' # r) = prefix ''<img'' (c # t)"
    using prefix_img_append [of t r] by simp
  with Cons show ?case by (simp del: Cons_prefix_Cons)
qed

lemma img_in_plain_block:
  "py_contains ''<img'' (item_open @ info_html t k @ item_close)
     = (py_contains ''<img'' t \<or> py_contains ''<img'' k)"
  by (simp add: item_open_def info_html_def item_close_def contains_img_append)

lemma sublist_fourth: "sublist x (a @ b @ c @ x @ r)"
  by (metis append.assoc sublist_appendI)

lemma sublist_seventh: "sublist x (a @ b @ c @ d @ e @ f @ x @ r)"
  by (metis append.assoc sublist_appendI)

lemma title_in_info: "sublist t (info_html t k)"
  unfolding info_html_def by (rule sublist_fourth)

lemma kind_in_info: "sublist k (info_html t k)"
  unfolding info_html_def by (rule sublist_seventh)

lemma info_in_block: "sublist (info_html t k) (item_open @ info_html t k @ item_close)"
  by (rule sublist_appendI)

lemma no_images_block:
  assumes "has_identity item"
    and "\<not> obtained (fst (get_cached_image e (poster_url base (item_ident item))
            (poster_path (item_ident item)) hdrs (world d)))"
    and "\<not> obtained (fst (get_cached_image e (logo_url base (item_ident item))
            (logo_path (item_ident item)) hdrs
            (snd (get_cached_image e (poster_url base (item_ident item))
                    (poster_path (item_ident item)) hdrs (world d)))))"
  shows "loop_body e base hdrs (EObj item) d =
    Inr \<lparr>html_content =
           html_content d @ item_open @ info_html (item_title item) (item_kind item) @ item_close,
         attached = attached d,
         world = snd (get_cached_image e (logo_url base (item_ident item))
            (logo_path (item_ident item)) hdrs
            (snd (get_cached_image e (poster_url base (item_ident item))
                    (poster_path (item_ident item)) hdrs (world d))))\<rparr>"
proof -
  let ?i = "item_ident item"
  obtain pb s1 where p: "get_cached_image e (poster_url base ?i) (poster_path ?i) hdrs (world d) = (pb, s1)"
    by (cases "get_cached_image e (poster_url base ?i) (poster_path ?i) hdrs (world d)")
  obtain lb s2 where l: "get_cached_image e (logo_url base ?i) (logo_path ?i) hdrs s1 = (lb, s2)"
    by (cases "get_cached_image e (logo_url base ?i) (logo_path ?i) hdrs s1")
  from assms(2) p have "\<not> obtained pb" by simp
  then have a1: "attach_image e (''poster_'' @ ?i) pb (attached d) = Inr (None, attached d)"
    by (rule attach_image_absent)
  from assms(3) p l have "\<not> obtained lb" by simp
  then have a2: "attach_image e (''logo_'' @ ?i) lb (attached d) = Inr (None, attached d)"
    by (rule attach_image_absent)
  from assms(1) p l a1 a2 show ?thesis
    by (simp add: loop_body_def process_item_def Let_def item_html_def)
qed

text \<open>
  C9. For a retained item for which neither call of \<open>get_cached_image\<close> yields image bytes
  (absent or empty), the loop body still succeeds and appends the item's block: the opening
  fragment, the fragment with the title and the type, the closing fragment, and neither of
  the two fragments that carry an \<open>img\<close> tag; no part is attached. Title and type occur in
  the block as they are, unescaped, so the text \<open><img\<close> occurs in the block exactly when it
  occurs in the title or in the type.
\<close>

theorem block_without_images:
  assumes "has_identity item"
    and "\<not> obtained (fst (get_cached_image e (poster_url base (item_ident item))
            (poster_path (item_ident item)) hdrs (world d)))"
    and "\<not> obtained (fst (get_cached_image e (logo_url base (item_ident item))
            (logo_path (item_ident item)) hdrs
            (snd (get_cached_image e (poster_url base (item_ident item))
                    (poster_path (item_ident item)) hdrs (world d)))))"
  shows "\<exists>d'. loop_body e base hdrs (EObj item) d = Inr d'
      \<and> html_content d'
          = html_content d @ item_open @ info_html (item_title item) (item_kind item) @ item_close
      \<and> attached d' = attached d
      \<and> sublist (item_title item) (info_html (item_title item) (item_kind item))
      \<and> sublist (item_kind item) (info_html (item_title item) (item_kind item))
      \<and> (sublist ''<img'' (item_open @ info_html (item_title item) (item_kind item) @ item_close)
           \<longleftrightarrow> sublist ''<img'' (item_title item) \<or> sublist ''<img'' (item_kind item))"
proof -
  note run = no_images_block [OF assms]
  note img = img_in_plain_block [of "item_title item" "item_kind item", unfolded py_contains_sublist]
  from run title_in_info kind_in_info img show ?thesis by simp
qed

lemma offline_no_image:
  assumes "fs s p = None"
  shows "get_cached_image offline_env url p hdrs s
     = (None, s\<lparr>trace := trace s @ [PathExists p, HttpGet url hdrs]\<rparr>)"
proof -
  have "http offline_env (trace s @ [PathExists p]) url hdrs = RequestException
      \<or> (\<exists>r. http offline_env (trace s @ [PathExists p]) url hdrs = Response r
             \<and> raise_for_status r)"
    by (simp add: offline_request)
  with assms show ?thesis by (rule get_cached_image_failed)
qed

lemma offline_item_images:
  assumes "fs s = Map.empty"
  shows "\<not> obtained (fst (get_cached_image offline_env u p h s))"
    and "\<not> obtained (fst (get_cached_image offline_env u' p' h'
            (snd (get_cached_image offline_env u p h s))))"
proof -
  from assms have 1: "fs s p = None" by simp
  note first = offline_no_image [OF 1, of u h]
  from first show "\<not> obtained (fst (get_cached_image offline_env u p h s))"
    by (simp add: obtained_def)
  from assms have "fs (s\<lparr>trace := trace s @ [PathExists p, HttpGet u h]\<rparr>) p' = None" by simp
  from offline_no_image [OF this, of u' h'] first
  show "\<not> obtained (fst (get_cached_image offline_env u' p' h'
            (snd (get_cached_image offline_env u p h s))))"
    by (simp add: obtained_def)
qed

lemma empty_draft_world: "fs (world empty_draft) = Map.empty"
  by (simp add: empty_draft_def empty_state_def)

lemma plain_item_fields:
  "has_identity plain_item" "item_title plain_item = ''Alien''" "item_kind plain_item = ''Movie''"
  by (simp_all add: plain_item_def has_identity_def item_title_def item_kind_def dict_get_def
      dict_get_default_def)

lemma tagged_item_fields:
  "has_identity tagged_item" "item_title tagged_item = ''<img src=x>''"
  by (simp_all add: tagged_item_def has_identity_def item_title_def dict_get_def
      dict_get_default_def)

theorem block_without_images_witness:
  "\<exists>d'. loop_body offline_env ''http://jf.lan:8096'' [] (EObj plain_item) empty_draft = Inr d'
      \<and> html_content d'
          = html_content empty_draft
            @ item_open @ info_html (item_title plain_item) (item_kind plain_item) @ item_close
      \<and> attached d' = attached empty_draft
      \<and> \<not> sublist ''<img''
            (item_open @ info_html (item_title plain_item) (item_kind plain_item) @ item_close)"
proof -
  note imgs = offline_item_images [OF empty_draft_world]
  note inst = block_without_images [of plain_item offline_env "''http://jf.lan:8096''" "[]"
      empty_draft, OF plain_item_fields(1) imgs(1) imgs(2)]
  have "\<not> sublist ''<img'' (item_title plain_item)" "\<not> sublist ''<img'' (item_kind plain_item)"
    unfolding plain_item_fields py_contains_sublist [symmetric] by simp_all
  with inst show ?thesis by blast
qed

text \<open>
  An item whose title is itself markup: neither image is obtained, the block is emitted, and
  it contains an \<open>img\<close> tag, the one the title brought with it.
\<close>

theorem block_without_images_counterexample:
  "has_identity tagged_item
   \<and> \<not> obtained (fst (get_cached_image offline_env
         (poster_url ''http://jf.lan:8096'' (item_ident tagged_item))
         (poster_path (item_ident tagged_item)) [] (world empty_draft)))
   \<and> \<not> obtained (fst (get_cached_image offline_env
         (logo_url ''http://jf.lan:8096'' (item_ident tagged_item))
         (logo_path (item_ident tagged_item)) []
         (snd (get_cached_image offline_env
            (poster_url ''http://jf.lan:8096'' (item_ident tagged_item))
            (poster_path (item_ident tagged_item)) [] (world empty_draft)))))
   \<and> html_content empty_draft = []
   \<and> \<not> isl (loop_body offline_env ''http://jf.lan:8096'' [] (EObj tagged_item) empty_draft)
   \<and> sublist ''<img''
       (html_content
         (projr (loop_body offline_env ''http://jf.lan:8096'' [] (EObj tagged_item) empty_draft)))"
proof -
  note imgs = offline_item_images [OF empty_draft_world]
  note run = no_images_block [of tagged_item offline_env "''http://jf.lan:8096''" "[]"
      empty_draft, OF tagged_item_fields(1) imgs(1) imgs(2)]
  have start: "html_content empty_draft = []" by (simp add: empty_draft_def)
  have "py_contains ''<img'' (item_title tagged_item)"
    unfolding tagged_item_fields by simp
  then have "sublist ''<img''
      (item_open @ info_html (item_title tagged_item) (item_kind tagged_item) @ item_close)"
    unfolding py_contains_sublist [symmetric] img_in_plain_block by (rule disjI1)
  with start have block: "sublist ''<img''
      (html_content
        (projr (loop_body offline_env ''http://jf.lan:8096'' [] (EObj tagged_item) empty_draft)))"
    unfolding run by simp
  have ok: "\<not> isl (loop_body offline_env ''http://jf.lan:8096'' [] (EObj tagged_item) empty_draft)"
    unfolding run by simp
  from tagged_item_fields(1) imgs(1) imgs(2) start ok block show ?thesis
    by (intro conjI)
qed

end
